theory Spec2Isabelle
  imports Main "HOL-Library.Sublist" "HOL-Library.List_Lexorder"
begin

section \<open>Text and the relational store\<close>

text \<open>
  A Python \<open>str\<close> is a sequence of Unicode code points; SQLite stores the same text as
  UTF-8, whose binary collation orders strings as the code points do. Text is therefore a
  list of code points, ordered lexicographically.
\<close>

type_synonym codepoint = nat
type_synonym str = "codepoint list"

definition ascii :: "string \<Rightarrow> str" where
  "ascii s = map of_char s"

text \<open>
  The four tables of \<open>init_database\<close>. A table is the list of its rows in storage
  order. \<open>init_database\<close> inserts only stripped strings, never NULL, so a TEXT column is a
  \<open>str\<close> and the empty string is the one falsy value.
\<close>

record person =
  p_person_id :: str
  p_name :: str
  p_years :: str
  p_name_normalized :: str

record dissertation =
  d_dissertation_id :: str
  d_author_id :: str
  d_author_name :: str
  d_title :: str
  d_year :: str
  d_school :: str
  d_school_id :: str
  d_department :: str
  d_subject_broad :: str

record advisor =
  a_id :: nat
  a_dissertation_id :: str
  a_advisor_id :: str
  a_advisor_name :: str
  a_advisor_role :: str
  a_advisor_number :: nat

record school =
  s_school_id :: str
  s_school_name :: str
  s_school_name_normalized :: str

record database =
  people :: "person list"
  dissertations :: "dissertation list"
  advisors :: "advisor list"
  schools :: "school list"

text \<open>\<open>SELECT DISTINCT\<close>: each row once, in the order of first occurrence.\<close>

fun select_distinct :: "'a list \<Rightarrow> 'a list" where
  "select_distinct [] = []"
| "select_distinct (x # xs) = x # select_distinct (filter (\<lambda>y. y \<noteq> x) xs)"

text \<open>\<open>FROM advisors a JOIN dissertations d ON a.dissertation_id = d.dissertation_id\<close>.\<close>

definition advisors_join_dissertations :: "database \<Rightarrow> (advisor \<times> dissertation) list" where
  "advisors_join_dissertations db =
     concat (map (\<lambda>a. map (\<lambda>d. (a, d))
                    (filter (\<lambda>d. a_dissertation_id a = d_dissertation_id d) (dissertations db)))
             (advisors db))"

section \<open>Text normalizer\<close>

text \<open>
  \<open>normalize_search_text\<close> calls \<open>unicodedata.normalize('NFD', _)\<close>,
  \<open>unicodedata.category\<close>, \<open>str.lower\<close> and \<open>str.strip\<close>. These are functions of
  the Python runtime, driven by the tables of the Unicode Character Database; they are
  parameters of the model.
\<close>

record unicode =
  normalize_NFD :: "str \<Rightarrow> str"
  category_Mn :: "codepoint \<Rightarrow> bool"
  str_lower :: "str \<Rightarrow> str"
  isspace :: "codepoint \<Rightarrow> bool"

definition str_strip :: "unicode \<Rightarrow> str \<Rightarrow> str" where
  "str_strip U s = rev (dropWhile (isspace U) (rev (dropWhile (isspace U) s)))"

text \<open>\<open>str.split()\<close> without a separator: the maximal runs of non-whitespace.\<close>

fun split_from :: "unicode \<Rightarrow> str \<Rightarrow> str \<Rightarrow> str list" where
  "split_from U word [] = (if word = [] then [] else [word])"
| "split_from U word (c # cs) =
     (if isspace U c
      then (if word = [] then split_from U [] cs else word # split_from U [] cs)
      else split_from U (word @ [c]) cs)"

definition str_split :: "unicode \<Rightarrow> str \<Rightarrow> str list" where
  "str_split U s = split_from U [] s"

definition normalize_search_text :: "unicode \<Rightarrow> str \<Rightarrow> str" where
  "normalize_search_text U s =
     (if s = [] then []
      else let nfd = normalize_NFD U s;
               without_diacritics = filter (\<lambda>ch. \<not> category_Mn U ch) nfd
           in str_strip U (str_lower U without_diacritics))"

section \<open>Exceptions\<close>

text \<open>
  The exceptions that leave the functions modelled here: \<open>sqlite3.OperationalError\<close>, when
  the store cannot be opened or SQLite rejects a statement, and \<open>RecursionError\<close>, when the
  interpreter's stack is full.
\<close>

datatype fault = OperationalError | RecursionError

section \<open>SQLite's LIKE\<close>

text \<open>
  \<open>X LIKE P\<close> without an ESCAPE clause, as SQLite's \<open>likeFunc\<close> computes it. A pattern of
  more bytes (in UTF-8) than the limit on the length of a pattern, 50000 by default, is an
  error, raised when the term is evaluated on a row. Otherwise \<open>patternCompare\<close> reads the
  pattern and the text as C strings, up to their first NUL: in the pattern \<open>%\<close> (37)
  matches any run of characters, \<open>_\<close> (95) matches any one character, and every other
  character matches itself, the ASCII letters regardless of case.
\<close>

definition sqlite_tolower :: "codepoint \<Rightarrow> codepoint" where
  "sqlite_tolower c = (if 65 \<le> c \<and> c \<le> 90 then c + 32 else c)"

fun patternCompare :: "str \<Rightarrow> str \<Rightarrow> bool" where
  "patternCompare [] s = (s = [])"
| "patternCompare (p # ps) [] = (p = 37 \<and> patternCompare ps [])"
| "patternCompare (p # ps) (c # cs) =
     (if p = 37 then patternCompare ps (c # cs) \<or> patternCompare (p # ps) cs
      else (p = 95 \<or> sqlite_tolower p = sqlite_tolower c) \<and> patternCompare ps cs)"

definition c_string :: "str \<Rightarrow> str" where
  "c_string s = takeWhile (\<lambda>c. c \<noteq> 0) s"

definition utf8_bytes :: "codepoint \<Rightarrow> nat" where
  "utf8_bytes c = (if c < 0x80 then 1 else if c < 0x800 then 2 else if c < 0x10000 then 3 else 4)"

definition utf8_length :: "str \<Rightarrow> nat" where
  "utf8_length s = sum_list (map utf8_bytes s)"

definition like :: "nat \<Rightarrow> str \<Rightarrow> str \<Rightarrow> fault + bool" where
  "like max_pattern pattern s =
     (if max_pattern < utf8_length pattern then Inl OperationalError
      else Inr (patternCompare (c_string pattern) (c_string s)))"

text \<open>
  A \<open>WHERE\<close> clause of \<open>LIKE\<close> terms joined by \<open>AND\<close> on one value: the terms are
  evaluated from the left, up to the first that is false.
\<close>

fun like_all :: "nat \<Rightarrow> str list \<Rightarrow> str \<Rightarrow> fault + bool" where
  "like_all max_pattern [] s = Inr True"
| "like_all max_pattern (pattern # patterns) s =
     (case like max_pattern pattern s of
        Inl e \<Rightarrow> Inl e
      | Inr matches \<Rightarrow> if matches then like_all max_pattern patterns s else Inr False)"

text \<open>The rows that a condition selects, in storage order, or its first error.\<close>

fun select_where :: "('a \<Rightarrow> fault + bool) \<Rightarrow> 'a list \<Rightarrow> fault + 'a list" where
  "select_where P [] = Inr []"
| "select_where P (row # rows) =
     (case P row of
        Inl e \<Rightarrow> Inl e
      | Inr selected \<Rightarrow>
          (case select_where P rows of
             Inl e \<Rightarrow> Inl e
           | Inr found \<Rightarrow> Inr (if selected then row # found else found)))"

text \<open>\<open>LIMIT 1\<close> and \<open>fetchone\<close>: the scan stops at the first row selected.\<close>

fun select_first :: "('a \<Rightarrow> fault + bool) \<Rightarrow> 'a list \<Rightarrow> fault + 'a option" where
  "select_first P [] = Inr None"
| "select_first P (row # rows) =
     (case P row of
        Inl e \<Rightarrow> Inl e
      | Inr selected \<Rightarrow> if selected then Inr (Some row) else select_first P rows)"

text \<open>The bound parameter \<open>f'%{part}%'\<close>.\<close>

definition like_param :: "str \<Rightarrow> str" where
  "like_param part = 37 # part @ [37]"

section \<open>Affiliation aggregator\<close>

record affiliation =
  af_school :: str
  af_student :: bool
  af_faculty :: bool
  af_year :: "str option"

text \<open>The dict \<open>affiliations\<close>, in insertion order: keys are unique.\<close>

type_synonym affiliations = "(str \<times> affiliation) list"

definition student_rows :: "database \<Rightarrow> str \<Rightarrow> (str \<times> str \<times> str) list" where
  "student_rows db person_id =
     select_distinct
       (map (\<lambda>d. (d_school d, d_school_id d, d_year d))
            (filter (\<lambda>d. d_author_id d = person_id) (dissertations db)))"

definition faculty_rows :: "database \<Rightarrow> str \<Rightarrow> (str \<times> str) list" where
  "faculty_rows db person_id =
     select_distinct
       (map (\<lambda>(a, d). (d_school d, d_school_id d))
            (filter (\<lambda>(a, d). a_advisor_id a = person_id) (advisors_join_dissertations db)))"

text \<open>\<open>key = school_id if school_id else school\<close>.\<close>

definition school_key :: "str \<Rightarrow> str \<Rightarrow> str" where
  "school_key school_id school = (if school_id \<noteq> [] then school_id else school)"

text \<open>The bodies of the two \<open>for\<close> loops, and the loops.\<close>

definition add_student :: "affiliations \<Rightarrow> str \<times> str \<times> str \<Rightarrow> affiliations" where
  "add_student affiliations row =
     (case row of (school, school_id, year) \<Rightarrow>
        if school \<noteq> [] then
          let key = school_key school_id school in
          if map_of affiliations key = None
          then affiliations @
                 [(key, \<lparr>af_school = school, af_student = True, af_faculty = False,
                          af_year = Some year\<rparr>)]
          else affiliations
        else affiliations)"

definition add_faculty :: "affiliations \<Rightarrow> str \<times> str \<Rightarrow> affiliations" where
  "add_faculty affiliations row =
     (case row of (school, school_id) \<Rightarrow>
        if school \<noteq> [] then
          let key = school_key school_id school in
          if map_of affiliations key = None
          then affiliations @
                 [(key, \<lparr>af_school = school, af_student = False, af_faculty = True,
                          af_year = None\<rparr>)]
          else map (\<lambda>(k, e). if k = key then (k, e\<lparr>af_faculty := True\<rparr>) else (k, e))
                 affiliations
        else affiliations)"

definition student_pass :: "(str \<times> str \<times> str) list \<Rightarrow> affiliations \<Rightarrow> affiliations" where
  "student_pass rows affiliations = foldl add_student affiliations rows"

definition faculty_pass :: "(str \<times> str) list \<Rightarrow> affiliations \<Rightarrow> affiliations" where
  "faculty_pass rows affiliations = foldl add_faculty affiliations rows"

definition person_affiliations_dict :: "database \<Rightarrow> str \<Rightarrow> affiliations" where
  "person_affiliations_dict db person_id =
     faculty_pass (faculty_rows db person_id) (student_pass (student_rows db person_id) [])"

definition get_person_affiliations :: "database \<Rightarrow> str \<Rightarrow> affiliation list" where
  "get_person_affiliations db person_id = map snd (person_affiliations_dict db person_id)"

section \<open>Descendant counter\<close>

definition direct_students :: "database \<Rightarrow> str \<Rightarrow> str list" where
  "direct_students db person_id =
     filter (\<lambda>row. row \<noteq> [])
       (select_distinct
          (map (\<lambda>(a, d). d_author_id d)
               (filter (\<lambda>(a, d). a_advisor_id a = person_id) (advisors_join_dissertations db))))"

text \<open>
  The recursion of \<open>get_descendants_count\<close> with its \<open>for\<close> loop. The set \<open>visited\<close> is
  one object mutated by every call, so each call returns it next to its result. Every
  call takes a frame of the interpreter's stack, whose depth CPython bounds (1000 frames
  by default): \<open>frames\<close> is the number of nested calls of \<open>get_descendants_count\<close> that the
  interpreter still allows, and a call beyond it raises \<open>RecursionError\<close>, which nothing
  catches.
\<close>

fun get_descendants_count ::
    "database \<Rightarrow> nat \<Rightarrow> str \<Rightarrow> str set \<Rightarrow> fault + (nat \<times> nat) \<times> str set"
  and visit_students ::
    "database \<Rightarrow> nat \<Rightarrow> str list \<Rightarrow> str set \<Rightarrow> nat \<Rightarrow> nat \<Rightarrow> fault + (nat \<times> nat) \<times> str set"
where
  "get_descendants_count db frames person_id visited =
     (if frames = 0 then Inl RecursionError
      else if person_id \<in> visited then Inr ((0, 0), visited)
      else let visited1 = insert person_id visited;
               students = direct_students db person_id
           in if students = [] then Inr ((0, 0), visited1)
              else visit_students db (frames - 1) students visited1 (length students) 1)"
| "visit_students db frames [] visited total_descendants max_depth =
     Inr ((total_descendants, max_depth), visited)"
| "visit_students db frames (student_id # rest) visited total_descendants max_depth =
     (case get_descendants_count db frames student_id visited of
        Inl e \<Rightarrow> Inl e
      | Inr ((descendant_count, depth), visited') \<Rightarrow>
          visit_students db frames rest visited' (total_descendants + descendant_count)
            (max max_depth (depth + 1)))"

text \<open>
  The call \<open>get_descendants_count(person_id)\<close> of the person page: a fresh set, and the
  frames that the interpreter has left at that point.
\<close>

definition descendantStats :: "database \<Rightarrow> nat \<Rightarrow> str \<Rightarrow> fault + nat \<times> nat" where
  "descendantStats db frames person_id =
     (case get_descendants_count db frames person_id {} of
        Inl e \<Rightarrow> Inl e
      | Inr (stats, visited) \<Rightarrow> Inr stats)"

definition advisor_ids :: "database \<Rightarrow> str set" where
  "advisor_ids db = set (map a_advisor_id (advisors db))"

section \<open>Search matcher\<close>

text \<open>
  The view function \<open>search\<close>. Its response is the call of \<open>render_template\<close> it ends
  with: the page with an error message, or the page with the results and the two queries
  echoed. An exception of \<open>sqlite3\<close> that the view does not catch leaves it as a fault.
\<close>

record result =
  r_person_id :: str
  r_name :: str
  r_years :: str
  r_affiliations :: "affiliation list"

datatype response =
  Render_error string
  | Render_results "result list" str str

text \<open>
  The store as the view finds it: \<open>content\<close> is \<open>None\<close> when \<open>sqlite3.connect\<close> raises
  (the database file cannot be opened). \<open>max_terms\<close> is the largest number of
  \<open>LIKE ?\<close> terms SQLite accepts in one statement (its limit on the depth of an
  expression admits 999); a longer statement makes \<open>execute\<close> raise.
  \<open>max_pattern\<close> is SQLite's limit on the length of a \<open>LIKE\<close> pattern in bytes.
\<close>

record store =
  content :: "database option"
  max_terms :: nat
  max_pattern :: nat

definition make_result :: "database \<Rightarrow> person \<Rightarrow> result" where
  "make_result db row =
     \<lparr>r_person_id = p_person_id row, r_name = p_name row, r_years = p_years row,
      r_affiliations = get_person_affiliations db (p_person_id row)\<rparr>"

text \<open>
  \<open>SELECT person_id, name, years FROM people WHERE name_normalized LIKE ? AND ... ORDER BY
  name\<close>, one term for each pattern.
\<close>

definition select_people_like :: "nat \<Rightarrow> database \<Rightarrow> str list \<Rightarrow> fault + person list" where
  "select_people_like limit db params =
     (case select_where (\<lambda>row. like_all limit params (p_name_normalized row)) (people db) of
        Inl e \<Rightarrow> Inl e
      | Inr rows \<Rightarrow> Inr (sort_key p_name rows))"

text \<open>\<open>[part.strip() for part in name_normalized.split() if part.strip()]\<close>.\<close>

definition name_parts :: "unicode \<Rightarrow> str \<Rightarrow> str list" where
  "name_parts U name_normalized =
     map (str_strip U) (filter (\<lambda>part. str_strip U part \<noteq> []) (str_split U name_normalized))"

text \<open>
  The name branch. The \<open>try\<close> block runs the statement with one \<open>LIKE\<close> term for each
  part; SQLite rejects it when it has too many terms, or raises while the rows are
  fetched. Either way no result has been appended yet, and the \<open>except\<close> branch runs the
  statement with the single term on the whole normalized query, whose error nothing
  catches.
\<close>

definition search_by_name ::
    "unicode \<Rightarrow> nat \<Rightarrow> nat \<Rightarrow> database \<Rightarrow> str \<Rightarrow> fault + result list" where
  "search_by_name U terms limit db name_query =
     (let name_normalized = normalize_search_text U name_query;
          parts = name_parts U name_normalized
      in if parts \<noteq> [] then
           (case (if length parts \<le> terms
                  then select_people_like limit db (map like_param parts)
                  else Inl OperationalError) of
              Inr rows \<Rightarrow> Inr (map (make_result db) rows)
            | Inl e \<Rightarrow>
                (case select_people_like limit db [like_param name_normalized] of
                   Inl e' \<Rightarrow> Inl e'
                 | Inr rows \<Rightarrow> Inr (map (make_result db) rows)))
         else Inr [])"

text \<open>
  The school branch. \<open>people_ids\<close> is a Python set; it is kept here in the order of first
  insertion. The order in which Python iterates over it decides only the relative order of
  results with equal names, since the results are sorted by name afterwards.
\<close>

definition school_student_ids :: "database \<Rightarrow> str \<Rightarrow> str \<Rightarrow> str list" where
  "school_student_ids db school_id school_name =
     filter (\<lambda>row. row \<noteq> [])
       (select_distinct
          (map d_author_id
             (filter (\<lambda>d. d_school_id d = school_id \<or> d_school d = school_name)
                (dissertations db))))"

definition school_faculty_ids :: "database \<Rightarrow> str \<Rightarrow> str \<Rightarrow> str list" where
  "school_faculty_ids db school_id school_name =
     filter (\<lambda>row. row \<noteq> [])
       (select_distinct
          (map (\<lambda>(a, d). a_advisor_id a)
             (filter (\<lambda>(a, d). d_school_id d = school_id \<or> d_school d = school_name)
                (advisors_join_dissertations db))))"

definition school_people :: "database \<Rightarrow> school \<Rightarrow> result list" where
  "school_people db school_row =
     (let school_id = s_school_id school_row;
          school_name = s_school_name school_row;
          people_ids = select_distinct (school_student_ids db school_id school_name @
                                        school_faculty_ids db school_id school_name);
          results = concat (map (\<lambda>person_id.
                       case find (\<lambda>row. p_person_id row = person_id) (people db) of
                         None \<Rightarrow> []
                       | Some person_row \<Rightarrow> [make_result db person_row]) people_ids)
      in sort_key r_name results)"

definition search_by_school ::
    "unicode \<Rightarrow> nat \<Rightarrow> database \<Rightarrow> str \<Rightarrow> fault + result list option" where
  "search_by_school U limit db school_query =
     (let school_normalized = normalize_search_text U school_query
      in case select_first
                (\<lambda>row. like limit (like_param school_normalized) (s_school_name_normalized row))
                (schools db) of
           Inl e \<Rightarrow> Inl e
         | Inr None \<Rightarrow> Inr None
         | Inr (Some school_row) \<Rightarrow> Inr (Some (school_people db school_row)))"

definition search :: "unicode \<Rightarrow> store \<Rightarrow> str \<Rightarrow> str \<Rightarrow> fault + response" where
  "search U st name_search school_search =
     (let name_query = str_strip U name_search;
          school_query = str_strip U school_search
      in if name_query = [] \<and> school_query = []
         then Inr (Render_error ''Please enter a name or university'')
         else case content st of
                None \<Rightarrow> Inl OperationalError
              | Some db \<Rightarrow>
                  if name_query \<noteq> []
                  then (case search_by_name U (max_terms st) (max_pattern st) db name_query of
                          Inl e \<Rightarrow> Inl e
                        | Inr results \<Rightarrow>
                            Inr (Render_results results name_query school_query))
                  else (case search_by_school U (max_pattern st) db school_query of
                          Inl e \<Rightarrow> Inl e
                        | Inr None \<Rightarrow> Inr (Render_error ''University not found'')
                        | Inr (Some results) \<Rightarrow>
                            Inr (Render_results results name_query school_query)))"

text \<open>What a search found, without the echoed queries: a message or the list of results.\<close>

fun outcome :: "fault + response \<Rightarrow> fault + (string + result list)" where
  "outcome (Inl f) = Inl f"
| "outcome (Inr (Render_error message)) = Inr (Inl message)"
| "outcome (Inr (Render_results results name_query school_query)) = Inr (Inr results)"

section \<open>Notions of the specification\<close>


definition no_capitals :: "str \<Rightarrow> bool" where
  "no_capitals s = list_all (\<lambda>c. \<not> (65 \<le> c \<and> c \<le> 90)) s"


definition ascii_text :: "str \<Rightarrow> bool" where
  "ascii_text s = list_all (\<lambda>c. c < 128) s"

text \<open>
  What the normalizer needs of the Unicode functions on ASCII text: it is in NFD, none of
  its characters is a nonspacing mark, \<open>lower\<close> maps A to Z onto a to z and nothing
  else; and \<open>lower\<close> never returns a capital A to Z.
\<close>

definition unicode_on_ascii :: "unicode \<Rightarrow> bool" where
  "unicode_on_ascii U =
     ((\<forall>s. ascii_text s \<longrightarrow> normalize_NFD U s = s) \<and>
      (\<forall>c. c < 128 \<longrightarrow> \<not> category_Mn U c) \<and>
      (\<forall>s. ascii_text s \<longrightarrow> str_lower U s = map sqlite_tolower s) \<and>
      (\<forall>s. no_capitals (str_lower U s)))"




text \<open>An affiliation entry as the aggregator should return it.\<close>

definition affiliation_ok :: "affiliation \<Rightarrow> bool" where
  "affiliation_ok e = ((af_student e \<or> af_faculty e) \<and> af_school e \<noteq> [])"



section \<open>The advisee graph of the specification\<close>

text \<open>
  The graph the descendant counter is specified on: an advisor produces every author of a
  dissertation they appear on. Descendants are the people reachable along one or more
  edges; a simple path visits no person twice.
\<close>

definition advises :: "database \<Rightarrow> (str \<times> str) set" where
  "advises db =
     set (map (\<lambda>(a, d). (a_advisor_id a, d_author_id d))
            (filter (\<lambda>(a, d). d_author_id d \<noteq> []) (advisors_join_dissertations db)))"

definition descendants :: "database \<Rightarrow> str \<Rightarrow> str set" where
  "descendants db root = (advises db)\<^sup>+ `` {root}"

fun advisee_path :: "database \<Rightarrow> str list \<Rightarrow> bool" where
  "advisee_path db [] = False"
| "advisee_path db [p] = True"
| "advisee_path db (p # q # ps) = ((p, q) \<in> advises db \<and> advisee_path db (q # ps))"

definition simple_path_from :: "database \<Rightarrow> str \<Rightarrow> str list \<Rightarrow> bool" where
  "simple_path_from db root ps = (advisee_path db ps \<and> hd ps = root \<and> distinct ps)"

text \<open>\<open>n\<close> is the number of edges of a longest simple path from \<open>root\<close>.\<close>

definition longest_simple_path :: "database \<Rightarrow> str \<Rightarrow> nat \<Rightarrow> bool" where
  "longest_simple_path db root n =
     ((\<exists>ps. simple_path_from db root ps \<and> length ps = n + 1) \<and>
      (\<forall>ps. simple_path_from db root ps \<longrightarrow> length ps \<le> n + 1))"

section \<open>Example stores\<close>

definition thesis :: "str \<Rightarrow> str \<Rightarrow> str \<Rightarrow> str \<Rightarrow> str \<Rightarrow> dissertation" where
  "thesis dissertation_id author_id school school_id year =
     \<lparr>d_dissertation_id = dissertation_id, d_author_id = author_id, d_author_name = author_id,
      d_title = [], d_year = year, d_school = school, d_school_id = school_id,
      d_department = [], d_subject_broad = []\<rparr>"

definition advised_by :: "nat \<Rightarrow> str \<Rightarrow> str \<Rightarrow> advisor" where
  "advised_by n dissertation_id advisor_id =
     \<lparr>a_id = n, a_dissertation_id = dissertation_id, a_advisor_id = advisor_id,
      a_advisor_name = advisor_id, a_advisor_role = [], a_advisor_number = 1\<rparr>"

text \<open>A advised B and C; B and C both advised D.\<close>

definition diamond :: database where
  "diamond = \<lparr>people = [],
     dissertations = [thesis (ascii ''d1'') (ascii ''B'') [] [] [],
                      thesis (ascii ''d2'') (ascii ''C'') [] [] [],
                      thesis (ascii ''d3'') (ascii ''D'') [] [] []],
     advisors = [advised_by 1 (ascii ''d1'') (ascii ''A''),
                 advised_by 2 (ascii ''d2'') (ascii ''A''),
                 advised_by 3 (ascii ''d3'') (ascii ''B''),
                 advised_by 4 (ascii ''d3'') (ascii ''C'')],
     schools = []\<rparr>"

text \<open>A advised B, B advised C, and C is recorded as an advisor of B.\<close>

definition late_cycle :: database where
  "late_cycle = \<lparr>people = [],
     dissertations = [thesis (ascii ''d1'') (ascii ''B'') [] [] [],
                      thesis (ascii ''d2'') (ascii ''C'') [] [] []],
     advisors = [advised_by 1 (ascii ''d1'') (ascii ''A''),
                 advised_by 2 (ascii ''d2'') (ascii ''B''),
                 advised_by 3 (ascii ''d1'') (ascii ''C'')],
     schools = []\<rparr>"

text \<open>
  A advised C and B, B also advised C, C advised D; the rows of C's dissertation come first.
\<close>

definition converging :: database where
  "converging = \<lparr>people = [],
     dissertations = [thesis (ascii ''d1'') (ascii ''C'') [] [] [],
                      thesis (ascii ''d2'') (ascii ''B'') [] [] [],
                      thesis (ascii ''d3'') (ascii ''D'') [] [] []],
     advisors = [advised_by 1 (ascii ''d1'') (ascii ''A''),
                 advised_by 2 (ascii ''d1'') (ascii ''B''),
                 advised_by 3 (ascii ''d2'') (ascii ''A''),
                 advised_by 4 (ascii ''d3'') (ascii ''C'')],
     schools = []\<rparr>"

text \<open>A advised B, and B is recorded as having advised A.\<close>

definition two_cycle :: database where
  "two_cycle = \<lparr>people = [],
     dissertations = [thesis (ascii ''d1'') (ascii ''B'') [] [] [],
                      thesis (ascii ''d2'') (ascii ''A'') [] [] []],
     advisors = [advised_by 1 (ascii ''d1'') (ascii ''A''),
                 advised_by 2 (ascii ''d2'') (ascii ''B'')],
     schools = []\<rparr>"

text \<open>
  A chain of \<open>n\<close> generations: person \<open>i\<close> advised person \<open>i + 1\<close>, for \<open>i\<close> below \<open>n\<close>.
\<close>

definition person_number :: "nat \<Rightarrow> str" where
  "person_number i = [Suc i]"

definition chain :: "nat \<Rightarrow> database" where
  "chain n = \<lparr>people = [],
     dissertations =
       map (\<lambda>i. thesis (person_number (Suc i)) (person_number (Suc i)) [] [] []) [0..<n],
     advisors =
       map (\<lambda>i. advised_by i (person_number (Suc i)) (person_number i)) [0..<n],
     schools = []\<rparr>"

subsection \<open>An excerpt of the Unicode tables\<close>

text \<open>
  The four functions on the characters of the examples, as the Unicode Character Database
  14.0 of CPython 3.11 has them: Basic Latin; U+00C9 and U+00E9, which decompose into E
  and e followed by U+0301; the nonspacing marks (category Mn) U+0301 of combining class
  230 and U+0901 of class 0; the spacing marks (category Mc) U+302E of class 224 and
  U+1D165 of class 216. The excerpt says nothing of other characters. NFD is the canonical
  decomposition of each character followed by the canonical ordering: a mark moves in
  front of the marks of a higher non-zero class that precede it.
\<close>

definition combining :: "codepoint \<Rightarrow> nat" where
  "combining c =
     (if c = 0x301 then 230 else if c = 0x302E then 224 else if c = 0x1D165 then 216 else 0)"

definition decomposition :: "codepoint \<Rightarrow> str" where
  "decomposition c =
     (if c = 0xC9 then [0x45, 0x301] else if c = 0xE9 then [0x65, 0x301] else [c])"

fun canonical_insert :: "codepoint \<Rightarrow> str \<Rightarrow> str" where
  "canonical_insert c [] = [c]"
| "canonical_insert c (x # xs) =
     (if combining c \<noteq> 0 \<and> combining c < combining x
      then x # canonical_insert c xs else c # x # xs)"

definition nfd :: "str \<Rightarrow> str" where
  "nfd s = rev (foldl (\<lambda>out c. canonical_insert c out) [] (concat (map decomposition s)))"

definition lower_codepoint :: "codepoint \<Rightarrow> codepoint" where
  "lower_codepoint c =
     (if (65 \<le> c \<and> c \<le> 90) \<or> (0xC0 \<le> c \<and> c \<le> 0xDE \<and> c \<noteq> 0xD7) then c + 32 else c)"

definition whitespace :: "codepoint \<Rightarrow> bool" where
  "whitespace c = (c \<in> {9, 10, 11, 12, 13, 28, 29, 30, 31, 32, 0x85, 0xA0})"

definition unicode_excerpt :: unicode where
  "unicode_excerpt =
     \<lparr>normalize_NFD = nfd,
      category_Mn = (\<lambda>c. c = 0x301 \<or> c = 0x901),
      str_lower = map lower_codepoint,
      isspace = whitespace\<rparr>"

subsection \<open>A store with two people and one school\<close>

text \<open>
  Ronald Numbers took his degree at Yale in 1969 and advised Bob's dissertation there. A
  second advisor of his own dissertation is recorded with the id p9 and no name, so that
  the people table, which takes only people with a name, has no row for p9.
\<close>

definition numbers :: person where
  "numbers = \<lparr>p_person_id = ascii ''p1'', p_name = ascii ''Numbers, Ronald'',
     p_years = ascii ''1942-'', p_name_normalized = ascii ''numbers, ronald''\<rparr>"

definition bob :: person where
  "bob = \<lparr>p_person_id = ascii ''p2'', p_name = ascii ''Bob'',
     p_years = [], p_name_normalized = ascii ''bob''\<rparr>"

definition yale :: school where
  "yale = \<lparr>s_school_id = ascii ''s1'', s_school_name = ascii ''Yale'',
     s_school_name_normalized = ascii ''yale''\<rparr>"

definition campus :: database where
  "campus = \<lparr>people = [numbers, bob],
     dissertations = [thesis (ascii ''d1'') (ascii ''p1'') (ascii ''Yale'') (ascii ''s1'') (ascii ''1969''),
                      thesis (ascii ''d2'') (ascii ''p2'') (ascii ''Yale'') (ascii ''s1'') (ascii ''1990'')],
     advisors = [advised_by 1 (ascii ''d2'') (ascii ''p1''),
                 \<lparr>a_id = 2, a_dissertation_id = ascii ''d1'', a_advisor_id = ascii ''p9'',
                  a_advisor_name = [], a_advisor_role = [], a_advisor_number = 2\<rparr>],
     schools = [yale]\<rparr>"

definition campus_store :: store where
  "campus_store = \<lparr>content = Some campus, max_terms = 999, max_pattern = 50000\<rparr>"

definition no_store :: store where
  "no_store = \<lparr>content = None, max_terms = 999, max_pattern = 50000\<rparr>"

lemmas unicode_defs =
  unicode_excerpt_def nfd_def decomposition_def combining_def lower_codepoint_def
  whitespace_def normalize_search_text_def str_strip_def ascii_def

lemmas campus_defs =
  campus_def numbers_def bob_def yale_def thesis_def advised_by_def ascii_def

lemmas graph_defs =
  thesis_def advised_by_def ascii_def direct_students_def advisors_join_dissertations_def

section \<open>Descendant counter: results\<close>

lemma set_select_distinct [simp]: "set (select_distinct xs) = set xs"
  by (induction xs rule: select_distinct.induct) auto

lemma direct_students_advisor:
  "direct_students db p \<noteq> [] \<Longrightarrow> p \<in> advisor_ids db"
  by (auto simp: direct_students_def advisor_ids_def advisors_join_dissertations_def
      filter_empty_conv)

lemma unvisited_less:
  assumes "p \<in> advisor_ids db" "p \<notin> visited" "card (advisor_ids db - visited) < frames"
  shows "card (advisor_ids db - insert p visited) < frames - 1"
proof -
  have "finite (advisor_ids db)" by (simp add: advisor_ids_def)
  then have "card (advisor_ids db - insert p visited) < card (advisor_ids db - visited)"
    using assms(1,2) by (intro psubset_card_mono) auto
  then show ?thesis using assms(3) by simp
qed

lemma unvisited_mono:
  assumes "visited \<subseteq> v'" "card (advisor_ids db - visited) < frames"
  shows "card (advisor_ids db - v') < frames"
proof -
  have "finite (advisor_ids db)" by (simp add: advisor_ids_def)
  then have "card (advisor_ids db - v') \<le> card (advisor_ids db - visited)"
    using assms(1) by (intro card_mono) auto
  then show ?thesis using assms(2) by simp
qed

lemma descendants_count_returns:
  "card (advisor_ids db - visited) < frames \<Longrightarrow>
     \<exists>r v'. get_descendants_count db frames p visited = Inr (r, v') \<and> visited \<subseteq> v'"
  "card (advisor_ids db - visited) < frames \<Longrightarrow>
     \<exists>r v'. visit_students db frames ss visited t m = Inr (r, v') \<and> visited \<subseteq> v'"
proof (induction db frames p visited and db frames ss visited t m
    rule: get_descendants_count_visit_students.induct)
  case (1 db frames person_id visited)
  show ?case
  proof (cases "person_id \<in> visited \<or> direct_students db person_id = []")
    case True
    then show ?thesis using 1(2) by (auto simp: Let_def)
  next
    case False
    then have "person_id \<in> advisor_ids db" "person_id \<notin> visited"
      using direct_students_advisor by auto
    then have less: "card (advisor_ids db - insert person_id visited) < frames - 1"
      using 1(2) by (rule unvisited_less)
    have "frames \<noteq> 0" using 1(2) by simp
    from 1(1)[OF this _ refl refl _ less] False
    obtain r v' where "visit_students db (frames - 1) (direct_students db person_id)
        (insert person_id visited) (length (direct_students db person_id)) 1 = Inr (r, v')"
      "insert person_id visited \<subseteq> v'"
      by auto
    then show ?thesis using False \<open>frames \<noteq> 0\<close> by (auto simp: Let_def)
  qed
next
  case (2 db frames visited total_descendants max_depth)
  then show ?case by simp
next
  case (3 db frames student_id rest visited total_descendants max_depth)
  from 3(1)[OF 3(3)] obtain dc depth v1 where
    first: "get_descendants_count db frames student_id visited = Inr ((dc, depth), v1)"
    and sub: "visited \<subseteq> v1"
    by auto
  have "card (advisor_ids db - v1) < frames"
    using sub 3(3) by (rule unvisited_mono)
  from 3(2)[OF first refl refl this] obtain r v' where
    "visit_students db frames rest v1 (total_descendants + dc) (max max_depth (depth + 1))
       = Inr (r, v')" "v1 \<subseteq> v'"
    by auto
  then show ?case using first sub by auto
qed

lemma descendants_count_fault:
  "get_descendants_count db frames p visited = Inl e \<Longrightarrow> e = RecursionError"
  "visit_students db frames ss visited t m = Inl e \<Longrightarrow> e = RecursionError"
proof (induction db frames p visited and db frames ss visited t m
    rule: get_descendants_count_visit_students.induct)
  case (1 db frames person_id visited)
  then show ?case by (auto simp: Let_def split: if_splits)
next
  case (2 db frames visited total_descendants max_depth)
  then show ?case by simp
next
  case (3 db frames student_id rest visited total_descendants max_depth)
  then show ?case by (auto split: sum.splits)
qed

lemma filter_eq_upt:
  "filter (\<lambda>j. j = i) [0..<n] = (if i < n then [i] else [])"
  "filter (\<lambda>j. i = j) [0..<n] = (if i < n then [i] else [])"
  by (induction n) auto

lemma person_number_inj [simp]: "person_number i = person_number j \<longleftrightarrow> i = j"
  by (simp add: person_number_def)

lemma concat_singletons:
  "(\<And>x. x \<in> set xs \<Longrightarrow> f x = [g x]) \<Longrightarrow> concat (map f xs) = map g xs"
  by (induction xs) auto

lemma chain_join:
  "advisors_join_dissertations (chain n) =
     map (\<lambda>i. (advised_by i (person_number (Suc i)) (person_number i),
               thesis (person_number (Suc i)) (person_number (Suc i)) [] [] [])) [0..<n]"
proof -
  have row: "filter (\<lambda>d. person_number (Suc i) = d_dissertation_id d)
          (map (\<lambda>i. thesis (person_number (Suc i)) (person_number (Suc i)) [] [] []) [0..<n])
        = [thesis (person_number (Suc i)) (person_number (Suc i)) [] [] []]"
    if "i < n" for i
    using that by (simp add: filter_map comp_def thesis_def filter_eq_upt)
  have "advisors_join_dissertations (chain n) =
      concat (map (\<lambda>i. map (Pair (advised_by i (person_number (Suc i)) (person_number i)))
              (filter (\<lambda>d. a_dissertation_id (advised_by i (person_number (Suc i)) (person_number i))
                            = d_dissertation_id d)
                 (map (\<lambda>i. thesis (person_number (Suc i)) (person_number (Suc i)) [] [] [])
                    [0..<n]))) [0..<n])"
    by (simp add: advisors_join_dissertations_def chain_def comp_def)
  also have "\<dots> = map (\<lambda>i. (advised_by i (person_number (Suc i)) (person_number i),
               thesis (person_number (Suc i)) (person_number (Suc i)) [] [] [])) [0..<n]"
    by (rule concat_singletons) (simp add: advised_by_def row)
  finally show ?thesis .
qed

lemma chain_students:
  "direct_students (chain n) (person_number i) =
     (if i < n then [person_number (Suc i)] else [])"
proof -
  have "filter (\<lambda>(a, d). a_advisor_id a = person_number i) (advisors_join_dissertations (chain n))
      = (if i < n then [(advised_by i (person_number (Suc i)) (person_number i),
               thesis (person_number (Suc i)) (person_number (Suc i)) [] [] [])] else [])"
    by (simp add: chain_join filter_map comp_def advised_by_def filter_eq_upt)
  then show ?thesis
    by (simp add: direct_students_def thesis_def person_number_def)
qed

lemma chain_overflow:
  "frames \<le> n - i \<Longrightarrow> \<forall>j\<ge>i. person_number j \<notin> visited \<Longrightarrow>
   get_descendants_count (chain n) frames (person_number i) visited = Inl RecursionError"
proof (induction frames arbitrary: i visited)
  case 0
  then show ?case by simp
next
  case (Suc k)
  then have "i < n" by simp
  have "get_descendants_count (chain n) k (person_number (Suc i))
          (insert (person_number i) visited) = Inl RecursionError"
    using Suc.prems by (intro Suc.IH) auto
  then show ?case
    using Suc.prems \<open>i < n\<close> by (simp add: chain_students)
qed

lemma chain_stats:
  "frames \<le> n \<Longrightarrow> descendantStats (chain n) frames (person_number 0) = Inl RecursionError"
  using chain_overflow [of frames n 0 "{}"] by (simp add: descendantStats_def)

lemma advises_direct_students: "(x, y) \<in> advises db \<longleftrightarrow> y \<in> set (direct_students db x)"
  by (auto simp: advises_def direct_students_def)

lemma advises_diamond:
  "advises diamond = {([65], [66]), ([65], [67]), ([66], [68]), ([67], [68])}"
  by (auto simp: advises_def diamond_def graph_defs)

lemma descendants_diamond: "descendants diamond (ascii ''A'') = {[66], [67], [68]}"
  unfolding descendants_def advises_diamond
  by (auto simp: ascii_def trancl_insert elim: rtranclE)

lemma advises_late_cycle: "advises late_cycle = {([65], [66]), ([66], [67]), ([67], [66])}"
  by (auto simp: advises_def late_cycle_def graph_defs)

lemma late_cycle_path_nodes:
  "advisee_path late_cycle ps \<Longrightarrow> set (tl ps) \<subseteq> {[66], [67]}"
  by (induction late_cycle ps rule: advisee_path.induct) (auto simp: advises_late_cycle)

lemma longest_simple_path_late_cycle: "longest_simple_path late_cycle (ascii ''A'') 2"
proof -
  have "simple_path_from late_cycle (ascii ''A'') [[65], [66], [67]]"
    by (simp add: simple_path_from_def advises_late_cycle ascii_def)
  moreover have "length ps \<le> 3" if h: "simple_path_from late_cycle (ascii ''A'') ps" for ps
  proof -
    from h have d: "distinct (tl ps)" and "set (tl ps) \<subseteq> {[66], [67]}"
      by (auto simp: simple_path_from_def late_cycle_path_nodes distinct_tl)
    then have "card (set (tl ps)) \<le> card {[66::nat], [67]}"
      by (intro card_mono) auto
    then have "length (tl ps) \<le> 2"
      using d by (simp add: distinct_card)
    then show ?thesis by simp
  qed
  ultimately show ?thesis
    unfolding longest_simple_path_def by fastforce
qed

lemma advises_converging:
  "advises converging = {([65], [67]), ([66], [67]), ([65], [66]), ([67], [68])}"
  by (auto simp: advises_def converging_def graph_defs)

lemma converging_path_nodes:
  "advisee_path converging ps \<Longrightarrow> set (tl ps) \<subseteq> {[66], [67], [68]}"
  by (induction converging ps rule: advisee_path.induct) (auto simp: advises_converging)

lemma longest_simple_path_converging: "longest_simple_path converging (ascii ''A'') 3"
proof -
  have "simple_path_from converging (ascii ''A'') [[65], [66], [67], [68]]"
    by (simp add: simple_path_from_def advises_converging ascii_def)
  moreover have "length ps \<le> 4" if h: "simple_path_from converging (ascii ''A'') ps" for ps
  proof -
    from h have d: "distinct (tl ps)" and "set (tl ps) \<subseteq> {[66], [67], [68]}"
      by (auto simp: simple_path_from_def converging_path_nodes distinct_tl)
    then have "card (set (tl ps)) \<le> card {[66::nat], [67], [68]}"
      by (intro card_mono) auto
    then have "length (tl ps) \<le> 3"
      using d by (simp add: distinct_card)
    then show ?thesis by simp
  qed
  ultimately show ?thesis
    unfolding longest_simple_path_def by fastforce
qed

lemma three_frames: "3 \<le> frames \<Longrightarrow> \<exists>k. frames = Suc (Suc (Suc k))"
  by presburger

lemma four_frames: "4 \<le> frames \<Longrightarrow> \<exists>k. frames = Suc (Suc (Suc (Suc k)))"
  by presburger

text \<open>
  C1. totalDescendants is claimed to be the number of distinct people reachable from the
  root. On the diamond (A advised B and C, who both advised D) the descendants of A are
  the three people B, C and D, and \<open>get_descendants_count\<close> returns 4, whenever the
  interpreter allows the three nested calls that the traversal needs: \<open>len(students)\<close>
  counts D for B and again for C, although the second visit of D returns 0.
\<close>

theorem totalDescendants_diamond:
  "3 \<le> frames \<Longrightarrow>
   descendantStats diamond frames (ascii ''A'') = Inr (4, 2) \<and>
   card (descendants diamond (ascii ''A'')) = 3"
proof
  assume "3 \<le> frames"
  then obtain k where "frames = Suc (Suc (Suc k))"
    using three_frames by blast
  then show "descendantStats diamond frames (ascii ''A'') = Inr (4, 2)"
    by (simp add: descendantStats_def diamond_def graph_defs)
  show "card (descendants diamond (ascii ''A'')) = 3"
    by (simp add: descendants_diamond)
qed

theorem totalDescendants_diamond_witness:
  "(3::nat) \<le> 1000 \<and>
   descendantStats diamond 1000 (ascii ''A'') = Inr (4, 2) \<and>
   card (descendants diamond (ascii ''A'')) = 3"
  using totalDescendants_diamond [of 1000] by simp

text \<open>
  C2. maxDepth is claimed to be the length of the longest simple path from the root. With
  A advised B, B advised C and C recorded as an advisor of B, the longest simple path from
  A is A, B, C with two edges, and \<open>get_descendants_count\<close> returns depth 3: C has the
  student B, so C reports depth 1 although B is already visited. Without a cycle the depth
  can come out too small: on \<open>converging\<close> the student C is visited before B, so the path
  A, B, C, D of three edges is cut at C and the depth returned is 2. Both hold whenever
  the interpreter allows the four nested calls that the traversals need.
\<close>

theorem maxDepth_late_cycle:
  "4 \<le> frames \<Longrightarrow>
   descendantStats late_cycle frames (ascii ''A'') = Inr (3, 3) \<and>
   longest_simple_path late_cycle (ascii ''A'') 2 \<and>
   descendantStats converging frames (ascii ''A'') = Inr (4, 2) \<and>
   longest_simple_path converging (ascii ''A'') 3"
proof (intro conjI)
  assume "4 \<le> frames"
  then obtain k where k: "frames = Suc (Suc (Suc (Suc k)))"
    using four_frames by blast
  show "descendantStats late_cycle frames (ascii ''A'') = Inr (3, 3)"
    unfolding k by (simp add: descendantStats_def late_cycle_def graph_defs)
  show "longest_simple_path late_cycle (ascii ''A'') 2"
    by (rule longest_simple_path_late_cycle)
  show "descendantStats converging frames (ascii ''A'') = Inr (4, 2)"
    unfolding k by (simp add: descendantStats_def converging_def graph_defs)
  show "longest_simple_path converging (ascii ''A'') 3"
    by (rule longest_simple_path_converging)
qed

theorem maxDepth_late_cycle_witness:
  "(4::nat) \<le> 1000 \<and>
   descendantStats late_cycle 1000 (ascii ''A'') = Inr (3, 3) \<and>
   simple_path_from late_cycle (ascii ''A'') [[65], [66], [67]] \<and>
   \<not> simple_path_from late_cycle (ascii ''A'') [[65], [66], [67], [66]] \<and>
   descendantStats converging 1000 (ascii ''A'') = Inr (4, 2) \<and>
   simple_path_from converging (ascii ''A'') [[65], [66], [67], [68]]"
proof -
  have "(4::nat) \<le> 1000" by simp
  note result = maxDepth_late_cycle [OF this]
  have "\<forall>ps. simple_path_from late_cycle (ascii ''A'') ps \<longrightarrow> length ps \<le> 3"
    using result [THEN conjunct2, THEN conjunct1] by (simp add: longest_simple_path_def)
  then have "\<not> simple_path_from late_cycle (ascii ''A'') [[65], [66], [67], [66]]"
    by fastforce
  moreover have "simple_path_from late_cycle (ascii ''A'') [[65], [66], [67]]"
    by (simp add: simple_path_from_def advises_late_cycle ascii_def)
  moreover have "simple_path_from converging (ascii ''A'') [[65], [66], [67], [68]]"
    by (simp add: simple_path_from_def advises_converging ascii_def)
  ultimately show ?thesis
    using result by simp
qed

lemma advisor_ids_two_cycle: "advisor_ids two_cycle = {ascii ''A'', ascii ''B''}"
  by (auto simp: advisor_ids_def two_cycle_def advised_by_def)

text \<open>
  C3, as amended. \<open>get_descendants_count\<close> halts on every store, every person and every
  set of visited people, whatever cycles the advisor rows contain: it is a total function,
  and it ends with a result or with \<open>RecursionError\<close>, no other fault. It returns a
  result whenever the advisors not yet visited are fewer than the nested calls that the
  interpreter still allows; so \<open>descendantStats\<close> returns a result on every store with
  fewer distinct advisors than that. A person who is already in the shared set \<open>visited\<close>
  contributes count 0 and depth 0 and leaves the set as it is.
\<close>

theorem descendantStats_returns:
  "(card (advisor_ids db) < frames \<longrightarrow>
      (\<exists>stats. descendantStats db frames person_id = Inr stats)) \<and>
   (card (advisor_ids db - visited) < frames \<longrightarrow>
      (\<exists>stats visited'. get_descendants_count db frames person_id visited
         = Inr (stats, visited'))) \<and>
   (0 < frames \<and> person_id \<in> visited \<longrightarrow>
      get_descendants_count db frames person_id visited = Inr ((0, 0), visited)) \<and>
   (\<forall>e. get_descendants_count db frames person_id visited = Inl e \<longrightarrow> e = RecursionError)"
proof (intro conjI impI allI)
  show "\<exists>stats. descendantStats db frames person_id = Inr stats"
    if "card (advisor_ids db) < frames"
    using that descendants_count_returns(1) [of db "{}" frames person_id]
    by (auto simp: descendantStats_def)
  show "\<exists>stats visited'. get_descendants_count db frames person_id visited = Inr (stats, visited')"
    if "card (advisor_ids db - visited) < frames"
    using that descendants_count_returns(1) [of db visited frames person_id] by blast
  show "get_descendants_count db frames person_id visited = Inr ((0, 0), visited)"
    if "0 < frames \<and> person_id \<in> visited"
    using that by simp
  show "e = RecursionError"
    if "get_descendants_count db frames person_id visited = Inl e" for e
    using that by (rule descendants_count_fault)
qed

theorem descendantStats_returns_witness:
  "card (advisor_ids two_cycle) < 1000 \<and>
   descendantStats two_cycle 1000 (ascii ''A'') = Inr (2, 2) \<and>
   ascii ''A'' \<in> {ascii ''A''} \<and>
   get_descendants_count two_cycle 1000 (ascii ''A'') {ascii ''A''} = Inr ((0, 0), {ascii ''A''})"
proof -
  have c: "card (advisor_ids two_cycle) < 1000"
    by (simp add: advisor_ids_two_cycle ascii_def)
  note returns = descendantStats_returns [of two_cycle 1000 "ascii ''A''" "{ascii ''A''}"]
  have "\<exists>stats. descendantStats two_cycle 1000 (ascii ''A'') = Inr stats"
    using returns [THEN conjunct1] c by simp
  moreover have "descendantStats two_cycle 1000 (ascii ''A'') = Inr (2, 2)"
    by (simp add: descendantStats_def two_cycle_def graph_defs)
  moreover have "get_descendants_count two_cycle 1000 (ascii ''A'') {ascii ''A''}
      = Inr ((0, 0), {ascii ''A''})"
    using returns [THEN conjunct2, THEN conjunct2, THEN conjunct1] by simp
  ultimately show ?thesis using c by simp
qed

text \<open>
  C3 as stated, a result on every graph, fails on a graph without any cycle. In a chain of
  1000 advisors, each the advisor of the next, every generation is one more nested call:
  with 1000 calls left, and so with every smaller number, the call for the first person
  ends in \<open>RecursionError\<close>.
\<close>

theorem descendantStats_deep_chain:
  "descendantStats (chain 1000) 1000 (person_number 0) = Inl RecursionError \<and>
   card (advisor_ids (chain 1000)) = 1000"
proof
  show "descendantStats (chain 1000) 1000 (person_number 0) = Inl RecursionError"
    by (rule chain_stats) simp
  have "advisor_ids (chain 1000) = person_number ` {0..<1000}"
    by (auto simp: advisor_ids_def chain_def advised_by_def)
  moreover have "inj_on person_number {0..<1000}"
    by (simp add: inj_on_def)
  ultimately show "card (advisor_ids (chain 1000)) = 1000"
    by (simp add: card_image)
qed

section \<open>Text normalizer: results\<close>

lemma last_dropWhile_nonempty: "dropWhile P xs \<noteq> [] \<Longrightarrow> last (dropWhile P xs) = last xs"
  by (metis dropWhile_eq_Nil_conv dropWhile_last)

lemma strip_idem: "str_strip U (str_strip U s) = str_strip U s"
proof -
  let ?P = "isspace U"
  let ?t = "dropWhile ?P s"
  let ?u = "dropWhile ?P (rev ?t)"
  have "dropWhile ?P (rev ?u) = rev ?u"
  proof (cases "?u = []")
    case True
    show ?thesis unfolding True by simp
  next
    case False
    then have "last ?u = last (rev ?t)" by (rule last_dropWhile_nonempty)
    moreover have "?t \<noteq> []" using False by (metis dropWhile.simps(1) rev.simps(1))
    ultimately have "hd (rev ?u) = hd ?t" using False by (simp add: hd_rev last_rev)
    moreover have "\<not> ?P (hd ?t)" using \<open>?t \<noteq> []\<close> by (rule hd_dropWhile)
    ultimately show ?thesis using False by (cases "rev ?u") auto
  qed
  then show ?thesis by (simp add: str_strip_def)
qed

lemma strip_sublist: "sublist (str_strip U s) s"
  unfolding str_strip_def
  by (meson sublist_dropWhile sublist_order.dual_order.trans sublist_rev_right)

lemma sublist_no_capitals: "sublist t s \<Longrightarrow> no_capitals s \<Longrightarrow> no_capitals t"
  by (auto simp: no_capitals_def list_all_iff dest: set_mono_sublist)

lemma tolower_no_capitals: "no_capitals s \<Longrightarrow> map sqlite_tolower s = s"
  by (induction s) (auto simp: no_capitals_def sqlite_tolower_def)

lemma normalize_ascii_fixed:
  assumes U: "unicode_on_ascii U" and a: "ascii_text y" and c: "no_capitals y"
    and s: "str_strip U y = y"
  shows "normalize_search_text U y = y"
proof (cases "y = []")
  case True
  then show ?thesis by (simp add: normalize_search_text_def)
next
  case False
  have 1: "normalize_NFD U y = y" using U a by (simp add: unicode_on_ascii_def)
  have 2: "filter (\<lambda>ch. \<not> category_Mn U ch) y = y"
    using U a by (auto simp: unicode_on_ascii_def ascii_text_def list_all_iff)
  have 3: "str_lower U y = y"
    using U a c by (simp add: unicode_on_ascii_def tolower_no_capitals)
  show ?thesis using False by (simp add: normalize_search_text_def 1 2 3 s)
qed

lemma canonical_insert_starter: "combining c = 0 \<Longrightarrow> canonical_insert c out = c # out"
  by (cases out) auto

lemma foldl_insert_ascii:
  "ascii_text s \<Longrightarrow> foldl (\<lambda>out c. canonical_insert c out) acc s = rev s @ acc"
  by (induction s arbitrary: acc)
     (auto simp: ascii_text_def canonical_insert_starter combining_def)

lemma decomposition_ascii: "ascii_text s \<Longrightarrow> concat (map decomposition s) = s"
  by (induction s) (auto simp: ascii_text_def decomposition_def)

lemma nfd_ascii: "ascii_text s \<Longrightarrow> nfd s = s"
  by (simp add: nfd_def decomposition_ascii foldl_insert_ascii)

lemma lower_codepoint_ascii: "ascii_text s \<Longrightarrow> map lower_codepoint s = map sqlite_tolower s"
  by (induction s) (auto simp: ascii_text_def lower_codepoint_def sqlite_tolower_def)

lemma lower_codepoint_no_capitals: "no_capitals (map lower_codepoint s)"
  by (induction s) (auto simp: no_capitals_def lower_codepoint_def)

lemma unicode_excerpt_on_ascii: "unicode_on_ascii unicode_excerpt"
  by (simp add: unicode_on_ascii_def unicode_excerpt_def nfd_ascii lower_codepoint_ascii
      lower_codepoint_no_capitals)

lemma normalize_Emile: "normalize_search_text unicode_excerpt [0xC9, 109, 105, 108, 101] = ascii ''emile''"
  by (simp add: unicode_defs)

lemma normalize_emile: "normalize_search_text unicode_excerpt (ascii ''emile'') = ascii ''emile''"
  by (simp add: unicode_defs)

text \<open>
  C5, as amended. \<open>normalize_search_text\<close> is idempotent at every text whose normalized
  form is ASCII, which covers every ASCII text and a name whose accents decompose into nonspacing
  marks; this needs of the Unicode functions only what \<open>unicode_on_ascii\<close> says. On
  the excerpt of the tables the name U+00C9, m, i, l, e (Emile with an acute accent) and
  the name emile both have the normalized form emile.
\<close>

theorem normalize_idempotent_ascii:
  assumes "unicode_on_ascii U" and "ascii_text (normalize_search_text U x)"
  shows "normalize_search_text U (normalize_search_text U x) = normalize_search_text U x"
proof (cases "x = []")
  case True
  then show ?thesis by (simp add: normalize_search_text_def)
next
  case False
  define w where "w = str_lower U (filter (\<lambda>ch. \<not> category_Mn U ch) (normalize_NFD U x))"
  have y: "normalize_search_text U x = str_strip U w"
    using False by (simp add: normalize_search_text_def w_def)
  have "no_capitals w" using assms(1) by (simp add: unicode_on_ascii_def w_def)
  then have "no_capitals (str_strip U w)" by (rule sublist_no_capitals [OF strip_sublist])
  moreover have "str_strip U (str_strip U w) = str_strip U w" by (rule strip_idem)
  ultimately show ?thesis
    using assms y normalize_ascii_fixed by simp
qed

theorem normalize_idempotent_ascii_witness:
  "unicode_on_ascii unicode_excerpt \<and>
   ascii_text (normalize_search_text unicode_excerpt [0xC9, 109, 105, 108, 101]) \<and>
   normalize_search_text unicode_excerpt
     (normalize_search_text unicode_excerpt [0xC9, 109, 105, 108, 101])
     = normalize_search_text unicode_excerpt [0xC9, 109, 105, 108, 101] \<and>
   normalize_search_text unicode_excerpt [0xC9, 109, 105, 108, 101] = ascii ''emile'' \<and>
   normalize_search_text unicode_excerpt (ascii ''emile'') = ascii ''emile''"
proof -
  have a: "ascii_text (normalize_search_text unicode_excerpt [0xC9, 109, 105, 108, 101])"
    unfolding normalize_Emile by (simp add: ascii_text_def ascii_def)
  from normalize_idempotent_ascii [OF unicode_excerpt_on_ascii a] a show ?thesis
    using unicode_excerpt_on_ascii normalize_Emile normalize_emile by simp
qed

text \<open>
  C5 as stated, idempotent at every text, fails. In a, U+302E, U+0901, U+1D165 the
  nonspacing mark U+0901 of class 0 keeps the spacing marks of classes 224 and 216 apart;
  the first pass removes it, and the second pass puts the two marks into canonical order.
\<close>

theorem normalize_not_idempotent:
  "normalize_search_text unicode_excerpt [0x61, 0x302E, 0x901, 0x1D165] = [0x61, 0x302E, 0x1D165] \<and>
   normalize_search_text unicode_excerpt [0x61, 0x302E, 0x1D165] = [0x61, 0x1D165, 0x302E] \<and>
   normalize_search_text unicode_excerpt
     (normalize_search_text unicode_excerpt [0x61, 0x302E, 0x901, 0x1D165])
     \<noteq> normalize_search_text unicode_excerpt [0x61, 0x302E, 0x901, 0x1D165]"
proof -
  have 1: "normalize_search_text unicode_excerpt [0x61, 0x302E, 0x901, 0x1D165] = [0x61, 0x302E, 0x1D165]"
    by (simp add: unicode_defs)
  have 2: "normalize_search_text unicode_excerpt [0x61, 0x302E, 0x1D165] = [0x61, 0x1D165, 0x302E]"
    by (simp add: unicode_defs)
  show ?thesis unfolding 1 2 by simp
qed

section \<open>Affiliation aggregator: results\<close>

lemma foldl_invariant:
  "P a \<Longrightarrow> (\<And>a x. P a \<Longrightarrow> P (f a x)) \<Longrightarrow> P (foldl f a xs)"
  by (induction xs arbitrary: a) auto

lemma add_student_ok:
  "list_all (\<lambda>(k, e). affiliation_ok e) affs \<Longrightarrow>
   list_all (\<lambda>(k, e). affiliation_ok e) (add_student affs row)"
  by (auto simp: add_student_def affiliation_ok_def Let_def split: prod.splits)

lemma add_faculty_ok:
  "list_all (\<lambda>(k, e). affiliation_ok e) affs \<Longrightarrow>
   list_all (\<lambda>(k, e). affiliation_ok e) (add_faculty affs row)"
  by (auto simp: add_faculty_def affiliation_ok_def Let_def list_all_iff split: prod.splits if_splits)

lemma campus_affiliations:
  "person_affiliations_dict campus (ascii ''p1'') =
     [(ascii ''s1'', \<lparr>af_school = ascii ''Yale'', af_student = True, af_faculty = True,
                      af_year = Some (ascii ''1969'')\<rparr>)]"
  by (simp add: person_affiliations_dict_def student_pass_def faculty_pass_def student_rows_def
      faculty_rows_def add_student_def add_faculty_def school_key_def
      advisors_join_dissertations_def campus_defs)

text \<open>
  C10. Every entry that \<open>get_person_affiliations\<close> returns has the student flag or the
  faculty flag set, and a non-empty school name.
\<close>

theorem affiliation_entries:
  "\<forall>e \<in> set (get_person_affiliations db person_id).
     (af_student e \<or> af_faculty e) \<and> af_school e \<noteq> []"
proof -
  have "list_all (\<lambda>(k, e). affiliation_ok e) (student_pass (student_rows db person_id) [])"
    unfolding student_pass_def by (rule foldl_invariant) (simp_all add: add_student_ok)
  then have "list_all (\<lambda>(k, e). affiliation_ok e) (person_affiliations_dict db person_id)"
    unfolding person_affiliations_dict_def faculty_pass_def
    by (rule foldl_invariant) (simp_all add: add_faculty_ok)
  then show ?thesis
    by (auto simp: get_person_affiliations_def list_all_iff affiliation_ok_def)
qed

theorem affiliation_entries_witness:
  "get_person_affiliations campus (ascii ''p1'') =
     [\<lparr>af_school = ascii ''Yale'', af_student = True, af_faculty = True,
       af_year = Some (ascii ''1969'')\<rparr>] \<and>
   ascii ''Yale'' \<noteq> []"
  using affiliation_entries [of campus "ascii ''p1''"]
  by (simp add: get_person_affiliations_def campus_affiliations)

lemma fst_mark [simp]:
  "fst \<circ> (\<lambda>(k, e). if k = key then (k, f e) else (k, e)) = fst"
  by (auto simp: fun_eq_iff)
















section \<open>LIKE and the parts of a query\<close>











lemma utf8_length_append [simp]: "utf8_length (xs @ ys) = utf8_length xs + utf8_length ys"
  by (simp add: utf8_length_def)



















section \<open>Search: results\<close>

lemma search_needs_store:
  "str_strip U name_search \<noteq> [] \<or> str_strip U school_search \<noteq> [] \<Longrightarrow> content st = None \<Longrightarrow>
   search U st name_search school_search = Inl OperationalError"
  by (auto simp: search_def Let_def)




subsection \<open>The example store\<close>

lemmas like_eval =
  like_def like_param_def c_string_def utf8_length_def utf8_bytes_def ascii_def sqlite_tolower_def

lemma tokens_ronald_numbers:
  "name_parts unicode_excerpt (normalize_search_text unicode_excerpt (ascii ''Ronald Numbers''))
     = [ascii ''ronald'', ascii ''numbers'']"
  by (simp add: name_parts_def str_split_def unicode_defs)


lemma like_ronald:
  "like 50000 (like_param (ascii ''ronald'')) (ascii ''numbers, ronald'') = Inr True"
  by (simp add: like_eval)

lemma like_numbers:
  "like 50000 (like_param (ascii ''numbers'')) (ascii ''numbers, ronald'') = Inr True"
  by (simp add: like_eval)

lemma like_ronald_bob: "like 50000 (like_param (ascii ''ronald'')) (ascii ''bob'') = Inr False"
  by (simp add: like_eval)

lemma select_ronald_numbers:
  "select_people_like 50000 campus [like_param (ascii ''ronald''), like_param (ascii ''numbers'')]
     = Inr [numbers]"
  by (simp add: select_people_like_def campus_def like_ronald like_numbers like_ronald_bob
      numbers_def bob_def)

lemma search_ronald_numbers:
  "search_by_name unicode_excerpt 999 50000 campus (ascii ''Ronald Numbers'')
     = Inr [make_result campus numbers]"
  by (simp add: search_by_name_def tokens_ronald_numbers select_ronald_numbers Let_def)




































subsection \<open>Claims\<close>







text \<open>
  C8. When the name query and the school query are both blank after trimming, \<open>search\<close>
  answers with the error page, whatever the store is: also when the store cannot be
  opened, where every other request ends in a fault. The store is not consulted.
\<close>

theorem empty_query_rejected:
  "str_strip U name_search = [] \<Longrightarrow> str_strip U school_search = [] \<Longrightarrow>
   search U st name_search school_search = Inr (Render_error ''Please enter a name or university'')"
  by (simp add: search_def)

theorem empty_query_rejected_witness:
  "str_strip unicode_excerpt (ascii ''  '') = [] \<and> str_strip unicode_excerpt [] = [] \<and>
   search unicode_excerpt no_store (ascii ''  '') [] =
     Inr (Render_error ''Please enter a name or university'') \<and>
   search unicode_excerpt no_store (ascii '' Bob'') [] = Inl OperationalError"
proof -
  have 1: "str_strip unicode_excerpt (ascii ''  '') = []"
    by (simp add: unicode_defs)
  have 2: "str_strip unicode_excerpt [] = []"
    by (simp add: str_strip_def)
  have 3: "str_strip unicode_excerpt (ascii '' Bob'') \<noteq> []"
    by (simp add: unicode_defs)
  have "search unicode_excerpt no_store (ascii '' Bob'') [] = Inl OperationalError"
    using 3 by (simp add: search_needs_store no_store_def)
  with empty_query_rejected [OF 1 2, of no_store] 1 2 show ?thesis by simp
qed

text \<open>
  C9. When the name query and the school query are both non-blank, \<open>search\<close> runs the
  name search only: it finds what the same request with a blank school query finds, the
  results of \<open>search_by_name\<close> (or its fault, or the fault of a store that cannot be
  opened). The school query is only echoed to the page.
\<close>

theorem school_query_ignored:
  "str_strip U name_search \<noteq> [] \<Longrightarrow> str_strip U school_search \<noteq> [] \<Longrightarrow>
   str_strip U blank = [] \<Longrightarrow>
   outcome (search U st name_search school_search) = outcome (search U st name_search blank) \<and>
   outcome (search U st name_search school_search) =
     (case content st of None \<Rightarrow> Inl OperationalError
      | Some db \<Rightarrow>
          (case search_by_name U (max_terms st) (max_pattern st) db (str_strip U name_search) of
             Inl e \<Rightarrow> Inl e
           | Inr results \<Rightarrow> Inr (Inr results)))"
  by (simp add: search_def Let_def split: option.splits sum.splits)

theorem school_query_ignored_witness:
  "str_strip unicode_excerpt (ascii ''Ronald Numbers'') \<noteq> [] \<and>
   str_strip unicode_excerpt (ascii ''Yale'') \<noteq> [] \<and>
   outcome (search unicode_excerpt campus_store (ascii ''Ronald Numbers'') (ascii ''Yale''))
     = Inr (Inr [make_result campus numbers]) \<and>
   outcome (search unicode_excerpt campus_store (ascii ''Ronald Numbers'') [])
     = Inr (Inr [make_result campus numbers])"
proof -
  have n: "str_strip unicode_excerpt (ascii ''Ronald Numbers'') = ascii ''Ronald Numbers''"
    by (simp add: unicode_defs)
  have 1: "str_strip unicode_excerpt (ascii ''Ronald Numbers'') \<noteq> []"
    unfolding n by (simp add: ascii_def)
  have 2: "str_strip unicode_excerpt (ascii ''Yale'') \<noteq> []"
    by (simp add: unicode_defs)
  have 3: "str_strip unicode_excerpt [] = []"
    by (simp add: str_strip_def)
  let ?both = "search unicode_excerpt campus_store (ascii ''Ronald Numbers'') (ascii ''Yale'')"
  let ?name = "search unicode_excerpt campus_store (ascii ''Ronald Numbers'') []"
  note ignored = school_query_ignored [OF 1 2 3, of campus_store]
  have same: "outcome ?both = outcome ?name"
    using ignored [THEN conjunct1] .
  have found: "outcome ?both = Inr (Inr [make_result campus numbers])"
    using ignored [THEN conjunct2]
    by (simp add: campus_store_def n search_ronald_numbers)
  from same found have "outcome ?name = Inr (Inr [make_result campus numbers])"
    by (rule subst)
  with found 1 2 show ?thesis by blast
qed

end
